theory Spec2Isabelle
  imports Complex_Main
begin

section \<open>Exceptions, errno values and the log\<close>

text \<open>
  Every failing system call of the Python sources raises \<open>OSError\<close> carrying an errno value.
  Python maps some errno values to subclasses of \<open>OSError\<close>; the handlers of
  \<^verbatim>\<open>lock.py\<close> and \<^verbatim>\<open>socket.py\<close> select on these subclasses or on the errno itself.
\<close>

datatype errno = EPERM | ENOENT | EBADF | EAGAIN | EACCES | EEXIST | EINVAL | ENOSYS | ECONNREFUSED

datatype exn = OSError errno | SocketPathError | ValueError

definition PermissionError :: "errno \<Rightarrow> bool" where
  "PermissionError e \<longleftrightarrow> e = EACCES \<or> e = EPERM"

definition FileNotFoundError :: "errno \<Rightarrow> bool" where
  "FileNotFoundError e \<longleftrightarrow> e = ENOENT"

definition ConnectionRefusedError :: "errno \<Rightarrow> bool" where
  "ConnectionRefusedError e \<longleftrightarrow> e = ECONNREFUSED"

text \<open>
  The structlog logger is modelled by the list of records it has emitted: severity and
  event text. \<^verbatim>\<open>log.exception\<close> emits at severity \<open>ERROR\<close>.
\<close>

datatype level = DEBUG | WARNING | ERROR

type_synonym log_entry = "level \<times> string"

section \<open>The process environment\<close>

text \<open>
  The world is what the two clients observe through the operating system: the platform,
  the lock file at \<^verbatim>\<open>LockClient.lockfile\<close> (one fixed path per executable) with its
  advisory lock, the descriptors this process has open, the environment variables, the
  channel endpoints, a monotonic clock and the log.

  \<^item> \<open>present\<close>: the directory entry of the lock file exists.
  \<^item> \<open>dir_writable\<close>: entries may be created in and removed from the temp directory.
  \<^item> \<open>rw_allowed\<close>: this process may open the existing lock file for reading and writing.
  \<^item> \<open>fchmod_permitted\<close>: this process may change the permission bits of the lock file.
  \<^item> \<open>locking_supported\<close>: the file system implements advisory locks.
  \<^item> \<open>foreign_lock\<close>: an open file description outside this process holds the lock
    (or takes it before this process asks).
  \<^item> \<open>fds\<close>: descriptors this process has open on the lock file.
  \<^item> \<open>lock_fd\<close>: the descriptor of this process through which the lock is held.
\<close>

datatype endpoint = Missing | Refusing | Denied | Listening

record world =
  windows :: bool
  present :: bool
  dir_writable :: bool
  rw_allowed :: bool
  fchmod_permitted :: bool
  locking_supported :: bool
  foreign_lock :: bool
  fds :: "nat list"
  lock_fd :: "nat option"
  file_mode :: nat
  clock :: real
  logged :: "log_entry list"
  environ :: "string \<rightharpoonup> string"
  endpoints :: "string \<Rightarrow> endpoint"
  handles :: "nat list"

definition log_debug :: "string \<Rightarrow> world \<Rightarrow> world" where
  "log_debug msg w = w\<lparr>logged := logged w @ [(DEBUG, msg)]\<rparr>"

definition log_warning :: "string \<Rightarrow> world \<Rightarrow> world" where
  "log_warning msg w = w\<lparr>logged := logged w @ [(WARNING, msg)]\<rparr>"

definition log_exception :: "string \<Rightarrow> world \<Rightarrow> world" where
  "log_exception msg w = w\<lparr>logged := logged w @ [(ERROR, msg)]\<rparr>"

subsection \<open>System calls on the lock file\<close>

text \<open>
  Each call returns the errno of its failure (\<open>Inl\<close>) or its result, and the world after
  it. A failure has a cause in the world: a descriptor that is not open gives \<open>EBADF\<close>, an
  existing file gives \<open>EEXIST\<close> under \<^verbatim>\<open>O_CREAT | O_EXCL\<close>, a competing lock gives
  \<open>EAGAIN\<close> from \<^verbatim>\<open>flock\<close> and \<open>EACCES\<close> from \<^verbatim>\<open>msvcrt.locking\<close>. Calls on an open
  descriptor that meet none of these causes succeed.
\<close>

definition fresh_fd :: "nat list \<Rightarrow> nat" where
  "fresh_fd xs = Suc (Max (insert 2 (set xs)))"

definition os_open_excl :: "nat \<Rightarrow> world \<Rightarrow> (errno + nat) \<times> world" where
  \<comment> \<open>\<^verbatim>\<open>os.open(lockfile, O_RDWR | O_CREAT | O_EXCL, mode)\<close>\<close>
  "os_open_excl m w =
     (if present w then (Inl EEXIST, w)
      else if \<not> dir_writable w then (Inl EACCES, w)
      else let fd = fresh_fd (fds w)
           in (Inr fd, w\<lparr>present := True, file_mode := m, fds := fd # fds w\<rparr>))"

definition open_rw :: "world \<Rightarrow> (errno + nat) \<times> world" where
  \<comment> \<open>\<^verbatim>\<open>lockfile.open('r+')\<close>\<close>
  "open_rw w =
     (if \<not> present w then (Inl ENOENT, w)
      else if \<not> rw_allowed w then (Inl EACCES, w)
      else let fd = fresh_fd (fds w) in (Inr fd, w\<lparr>fds := fd # fds w\<rparr>))"

definition os_close :: "nat \<Rightarrow> world \<Rightarrow> (errno + unit) \<times> world" where
  \<comment> \<open>closing a descriptor drops the lock held through it\<close>
  "os_close fd w =
     (if fd \<notin> set (fds w) then (Inl EBADF, w)
      else (Inr (), w\<lparr>fds := remove1 fd (fds w),
                       lock_fd := (if lock_fd w = Some fd then None else lock_fd w)\<rparr>))"

definition os_fchmod :: "nat \<Rightarrow> nat \<Rightarrow> world \<Rightarrow> (errno + unit) \<times> world" where
  "os_fchmod fd m w =
     (if fd \<notin> set (fds w) then (Inl EBADF, w)
      else if \<not> fchmod_permitted w then (Inl EPERM, w)
      else (Inr (), w\<lparr>file_mode := m\<rparr>))"

definition lock_conflict :: "nat \<Rightarrow> world \<Rightarrow> bool" where
  "lock_conflict fd w \<longleftrightarrow> foreign_lock w \<or> (lock_fd w \<noteq> None \<and> lock_fd w \<noteq> Some fd)"

text \<open>
  The three operation words the source passes to \<^verbatim>\<open>fcntl.flock\<close>. A word with
  \<^verbatim>\<open>LOCK_NB\<close> alone names no operation (shared, exclusive or unlock), which flock(2)
  rejects with \<open>EINVAL\<close>.
\<close>

datatype flock_op =
    LOCK_EX_NB  \<comment> \<open>\<^verbatim>\<open>fcntl.LOCK_EX | fcntl.LOCK_NB\<close>\<close>
  | LOCK_NB     \<comment> \<open>\<^verbatim>\<open>fcntl.LOCK_NB\<close>\<close>
  | LOCK_UN     \<comment> \<open>\<^verbatim>\<open>fcntl.LOCK_UN\<close>\<close>

fun fcntl_flock :: "nat \<Rightarrow> flock_op \<Rightarrow> world \<Rightarrow> (errno + unit) \<times> world" where
  "fcntl_flock fd LOCK_EX_NB w =
     (if fd \<notin> set (fds w) then (Inl EBADF, w)
      else if \<not> locking_supported w then (Inl ENOSYS, w)
      else if lock_conflict fd w then (Inl EAGAIN, w)
      else (Inr (), w\<lparr>lock_fd := Some fd\<rparr>))"
| "fcntl_flock fd LOCK_NB w =
     (if fd \<notin> set (fds w) then (Inl EBADF, w) else (Inl EINVAL, w))"
| "fcntl_flock fd LOCK_UN w =
     (if fd \<notin> set (fds w) then (Inl EBADF, w)
      else (Inr (), w\<lparr>lock_fd := (if lock_fd w = Some fd then None else lock_fd w)\<rparr>))"

datatype locking_mode = LK_NBLCK | LK_UNLCK

fun msvcrt_locking :: "nat \<Rightarrow> locking_mode \<Rightarrow> world \<Rightarrow> (errno + unit) \<times> world" where
  "msvcrt_locking fd LK_NBLCK w =
     (if fd \<notin> set (fds w) then (Inl EBADF, w)
      else if \<not> locking_supported w then (Inl ENOSYS, w)
      else if lock_conflict fd w then (Inl EACCES, w)
      else (Inr (), w\<lparr>lock_fd := Some fd\<rparr>))"
| "msvcrt_locking fd LK_UNLCK w =
     (if fd \<notin> set (fds w) then (Inl EBADF, w)
      else if lock_fd w \<noteq> Some fd then (Inl EACCES, w)
      else (Inr (), w\<lparr>lock_fd := None\<rparr>))"

definition unlink_missing_ok :: "world \<Rightarrow> (errno + unit) \<times> world" where
  \<comment> \<open>\<^verbatim>\<open>lockfile.unlink(missing_ok=True)\<close>: a missing file is not an error. Locks on the
      removed file no longer concern the path.\<close>
  "unlink_missing_ok w =
     (if \<not> present w then (Inr (), w)
      else if \<not> dir_writable w then (Inl EACCES, w)
      else (Inr (), w\<lparr>present := False, foreign_lock := False, lock_fd := None\<rparr>))"

definition time_sleep :: "real \<Rightarrow> world \<Rightarrow> (exn + unit) \<times> world" where
  \<comment> \<open>\<^verbatim>\<open>time.sleep\<close> rejects a negative length\<close>
  "time_sleep d w = (if d < 0 then (Inl ValueError, w) else (Inr (), w\<lparr>clock := clock w + d\<rparr>))"

section \<open>LockClient (lock.py)\<close>

record LockClient =
  priv_mode :: nat
  priv_fd :: "nat option"

text \<open>
  Objects live in a heap, addressed by reference: the guard returned by \<^verbatim>\<open>acquire\<close>
  holds a reference to the client, not a copy of it.
\<close>

type_synonym ref = nat

datatype AcquireLock = AcquireLock (lock: ref)

definition new_LockClient :: LockClient where
  "new_LockClient = \<lparr>priv_mode = 420, priv_fd = None\<rparr>"

definition is_locked :: "LockClient \<Rightarrow> bool" where
  "is_locked c \<longleftrightarrow> priv_fd c \<noteq> None"

definition try_lock :: "nat \<Rightarrow> world \<Rightarrow> (errno + unit) \<times> world" where
  "try_lock fd w = (if windows w then msvcrt_locking fd LK_NBLCK w else fcntl_flock fd LOCK_EX_NB w)"

definition acquire ::
  "ref \<Rightarrow> (ref \<Rightarrow> LockClient) \<times> world \<Rightarrow> (exn + AcquireLock) \<times> (ref \<Rightarrow> LockClient) \<times> world" where
  "acquire self st =
     (case st of (h, w) \<Rightarrow>
      if \<not> is_locked (h self) then
        (case os_open_excl (priv_mode (h self)) (log_debug ''Acquiring lock on file'' w) of
           (Inl err, w1) \<Rightarrow>
             (Inr (AcquireLock self),
              h(self := (h self)\<lparr>priv_fd := None\<rparr>),
              (if err = EACCES then log_warning ''Permission denied when opening lockfile'' w1
               else log_exception ''Failed to open lockfile'' w1))
         | (Inr fd, w1) \<Rightarrow>
             (case try_lock fd w1 of
                (Inr u, w2) \<Rightarrow> (Inr (AcquireLock self), h(self := (h self)\<lparr>priv_fd := Some fd\<rparr>), w2)
              | (Inl err, w2) \<Rightarrow>
                  (case os_close fd
                          (if err \<noteq> EACCES
                           then log_warning ''Permission denied during file lock operation'' w2
                           else if err = ENOSYS
                           then log_exception ''Locking not supported on filesystem'' w2
                           else log_exception ''Failed to locking file'' w2) of
                     (Inl e, w3) \<Rightarrow>
                       (Inl (OSError e), h(self := (h self)\<lparr>priv_fd := Some fd\<rparr>), w3)
                   | (Inr u, w3) \<Rightarrow>
                       (Inr (AcquireLock self), h(self := (h self)\<lparr>priv_fd := None\<rparr>), w3))))
      else (Inr (AcquireLock self), h, w))"

definition release_try :: "nat \<Rightarrow> nat \<Rightarrow> world \<Rightarrow> (errno + unit) \<times> world" where
  \<comment> \<open>the \<^verbatim>\<open>try\<close> suite of \<^verbatim>\<open>release\<close>: unlock (after restoring the mode on POSIX, where
      a PermissionError is suppressed), then close\<close>
  "release_try fd m w =
     (if windows w then
        (case msvcrt_locking fd LK_UNLCK w of
           (Inl e, w1) \<Rightarrow> (Inl e, w1)
         | (Inr u, w1) \<Rightarrow> os_close fd w1)
      else
        (case os_fchmod fd m w of
           (Inl e, w1) \<Rightarrow>
             (if PermissionError e then
                (case fcntl_flock fd LOCK_UN w1 of
                   (Inl e', w2) \<Rightarrow> (Inl e', w2)
                 | (Inr u, w2) \<Rightarrow> os_close fd w2)
              else (Inl e, w1))
         | (Inr u, w1) \<Rightarrow>
             (case fcntl_flock fd LOCK_UN w1 of
                (Inl e', w2) \<Rightarrow> (Inl e', w2)
              | (Inr u, w2) \<Rightarrow> os_close fd w2)))"

definition release ::
  "ref \<Rightarrow> (ref \<Rightarrow> LockClient) \<times> world \<Rightarrow> (exn + unit) \<times> (ref \<Rightarrow> LockClient) \<times> world" where
  "release self st =
     (case st of (h, w) \<Rightarrow>
      (case priv_fd (h self) of
         None \<Rightarrow> (Inr (), h, w)
       | Some fd \<Rightarrow>
           (case time_sleep (3 / 10) w of
              (Inl x, w0) \<Rightarrow> (Inl x, h, w0)
            | (Inr u, w0) \<Rightarrow>
                (case (case release_try fd (priv_mode (h self)) (log_debug ''Release lock'' w0) of
                         (Inl e, w1) \<Rightarrow> (h, log_exception ''Lock release failed'' w1)
                       | (Inr u, w1) \<Rightarrow>
                           (h(self := (h self)\<lparr>priv_fd := None\<rparr>),
                            log_debug ''Lock release successfully'' w1)) of
                   (h', w2) \<Rightarrow>
                     (case unlink_missing_ok w2 of
                        (Inl e, w3) \<Rightarrow>
                          (if FileNotFoundError e then (Inr (), h', w3) else (Inl (OSError e), h', w3))
                      | (Inr u, w3) \<Rightarrow> (Inr (), h', w3))))))"

definition AcquireLock_exit ::
  "AcquireLock \<Rightarrow> (ref \<Rightarrow> LockClient) \<times> world \<Rightarrow> (exn + unit) \<times> (ref \<Rightarrow> LockClient) \<times> world" where
  "AcquireLock_exit g st = release (lock g) st"

definition probe_body :: "nat \<Rightarrow> world \<Rightarrow> (errno + unit) \<times> world" where
  \<comment> \<open>the body of the \<^verbatim>\<open>with\<close> statement of \<^verbatim>\<open>exists_running\<close>\<close>
  "probe_body fd w =
     (if windows w then
        (case msvcrt_locking fd LK_NBLCK w of
           (Inl e, w1) \<Rightarrow> (Inl e, w1)
         | (Inr u, w1) \<Rightarrow> msvcrt_locking fd LK_UNLCK w1)
      else
        (case fcntl_flock fd LOCK_NB w of
           (Inl e, w1) \<Rightarrow> (Inl e, w1)
         | (Inr u, w1) \<Rightarrow> fcntl_flock fd LOCK_UN w1))"

definition probe :: "world \<Rightarrow> (errno + unit) \<times> world" where
  \<comment> \<open>\<^verbatim>\<open>with self.lockfile.open('r+') as file: ...\<close>: the file is closed on every exit\<close>
  "probe w =
     (case open_rw w of
        (Inl e, w1) \<Rightarrow> (Inl e, w1)
      | (Inr fd, w1) \<Rightarrow>
          (case probe_body fd w1 of
             (r, w2) \<Rightarrow>
               (case os_close fd w2 of
                  (Inl e, w3) \<Rightarrow> (Inl e, w3)
                | (Inr u, w3) \<Rightarrow> (r, w3))))"

definition exists_running :: "LockClient \<Rightarrow> world \<Rightarrow> bool \<times> world" where
  "exists_running c w =
     (if is_locked c \<or> \<not> present w then (False, w)
      else (case probe w of
              (Inl e, w1) \<Rightarrow> (True, w1)
            | (Inr u, w1) \<Rightarrow> (False, w1)))"


text \<open>
  While this process sleeps, other processes may create, remove, lock and unlock the lock
  file. Their activity is a function of the clock: whether the file is present and whether
  a foreign lock is held at each instant.
\<close>

type_synonym outside = "real \<Rightarrow> bool \<times> bool"

definition others_act :: "outside \<Rightarrow> world \<Rightarrow> world" where
  "others_act out w = w\<lparr>present := fst (out (clock w)), foreign_lock := snd (out (clock w))\<rparr>"

text \<open>
  The \<^verbatim>\<open>while\<close> loop of \<^verbatim>\<open>wait\<close>. It need not end (no timeout, or an interval of zero
  length on a clock that only sleeping advances), so the result is optional: \<open>None\<close> is a
  loop that never returns.
\<close>

partial_function (option) wait_loop ::
  "outside \<Rightarrow> LockClient \<Rightarrow> real option \<Rightarrow> real \<Rightarrow> real \<Rightarrow> world \<Rightarrow> ((exn + bool) \<times> world) option" where
  "wait_loop out c timeout interval start w =
     (case exists_running c w of
        (running, w1) \<Rightarrow>
          if running then
            (if (case timeout of None \<Rightarrow> False | Some t \<Rightarrow> clock w1 - start \<ge> t)
             then Some (Inr False, w1)
             else (case time_sleep interval w1 of
                     (Inl x, w2) \<Rightarrow> Some (Inl x, w2)
                   | (Inr u, w2) \<Rightarrow> wait_loop out c timeout interval start (others_act out w2)))
          else Some (Inr True, w1))"

definition wait ::
  "LockClient \<Rightarrow> outside \<Rightarrow> real option \<Rightarrow> real \<Rightarrow> world \<Rightarrow> ((exn + bool) \<times> world) option" where
  "wait c out timeout interval w =
     wait_loop out c timeout interval (clock w) (log_debug ''Wait for other lock to end'' w)"

section \<open>SocketClient (socket.py)\<close>

subsection \<open>Path arithmetic of pathlib on POSIX\<close>

text \<open>
  \<^verbatim>\<open>str(Path(a) / b)\<close> joins the two strings as \<^verbatim>\<open>posixpath.join\<close> does and prints the
  parsed path: the root (\<open>/\<close>, or \<open>//\<close> for exactly two leading slashes), then the
  components that are neither empty nor \<open>.\<close>, separated by single slashes; a path without
  root and components prints as \<open>.\<close>.
\<close>

fun split_sep :: "char \<Rightarrow> string \<Rightarrow> string list" where
  "split_sep c [] = [[]]"
| "split_sep c (x # xs) =
     (if x = c then [] # split_sep c xs
      else (case split_sep c xs of [] \<Rightarrow> [[x]] | p # ps \<Rightarrow> (x # p) # ps))"

fun join_sep :: "string list \<Rightarrow> string" where
  "join_sep [] = []"
| "join_sep [p] = p"
| "join_sep (p # q # ps) = p @ ''/'' @ join_sep (q # ps)"

definition posixpath_join :: "string \<Rightarrow> string \<Rightarrow> string" where
  "posixpath_join a b =
     (if take 1 b = ''/'' then b
      else if a = [] \<or> last a = CHR ''/'' then a @ b
      else a @ ''/'' @ b)"

definition splitroot :: "string \<Rightarrow> string \<times> string" where
  "splitroot p =
     (if take 1 p \<noteq> ''/'' then ([], p)
      else if take 1 (drop 1 p) \<noteq> ''/'' \<or> take 1 (drop 2 p) = ''/'' then (''/'', drop 1 p)
      else (take 2 p, drop 2 p))"

definition path_parts :: "string \<Rightarrow> string list" where
  "path_parts rel = filter (\<lambda>x. x \<noteq> [] \<and> x \<noteq> ''.'') (split_sep (CHR ''/'') rel)"

definition path_str :: "string \<Rightarrow> string" where
  "path_str p =
     (case splitroot p of
        (anchor, rel) \<Rightarrow>
          if anchor = [] \<and> path_parts rel = [] then ''.''
          else anchor @ join_sep (path_parts rel))"

definition truediv :: "string \<Rightarrow> string \<Rightarrow> string" where
  \<comment> \<open>\<^verbatim>\<open>str(Path(a) / b)\<close>\<close>
  "truediv a b = path_str (posixpath_join a b)"

subsection \<open>The client\<close>

record SocketClient =
  name :: string
  default_path :: "string option"
  priv_pipe :: "nat option"
  socket_path_cache :: "string option"

datatype ConnectSocket = ConnectSocket (socket: ref)

definition is_connect :: "SocketClient \<Rightarrow> bool" where
  "is_connect c \<longleftrightarrow> priv_pipe c \<noteq> None"

fun socket_path_loop :: "(string \<rightharpoonup> string) \<Rightarrow> string \<Rightarrow> string list \<Rightarrow> exn + string" where
  \<comment> \<open>the \<^verbatim>\<open>for var in (...)\<close> loop and the \<^verbatim>\<open>raise\<close> after it\<close>
  "socket_path_loop env nm [] = Inl SocketPathError"
| "socket_path_loop env nm (var # vars) =
     (case env var of
        None \<Rightarrow> socket_path_loop env nm vars
      | Some base_dir \<Rightarrow>
          if base_dir \<noteq> [] then Inr (truediv base_dir (''.'' @ nm))
          else socket_path_loop env nm vars)"

definition pipe_prefix :: string where
  \<comment> \<open>the raw string \<^verbatim>\<open>\\.\pipe\\<close> in front of the name\<close>
  "pipe_prefix = [CHR 0x5C, CHR 0x5C, CHR ''.'', CHR 0x5C] @ ''pipe'' @ [CHR 0x5C]"

definition socket_path_body :: "SocketClient \<Rightarrow> world \<Rightarrow> exn + string" where
  "socket_path_body c w =
     (if default_path c \<noteq> None \<and> default_path c \<noteq> Some [] then Inr (the (default_path c))
      else if windows w then Inr (pipe_prefix @ name c)
      else socket_path_loop (environ w) (name c) [''XDG_RUNTIME_DIR'', ''HOME'', ''TMPDIR''])"

definition socket_path :: "SocketClient \<Rightarrow> world \<Rightarrow> (exn + string) \<times> SocketClient" where
  \<comment> \<open>\<^verbatim>\<open>@cached_property\<close>: the first value computed is kept; an exception caches nothing\<close>
  "socket_path c w =
     (case socket_path_cache c of
        Some p \<Rightarrow> (Inr p, c)
      | None \<Rightarrow>
          (case socket_path_body c w of
             Inl e \<Rightarrow> (Inl e, c)
           | Inr p \<Rightarrow> (Inr p, c\<lparr>socket_path_cache := Some p\<rparr>)))"

text \<open>
  Opening the transport depends on the state of the endpoint at the address: nothing
  there, a socket nobody accepts on (a busy pipe on Windows, which has no errno of its
  own), an endpoint this process may not open, or a listening peer. Closing a handle
  that is no longer open fails with \<open>EBADF\<close>.
\<close>

definition fresh_handle :: "nat list \<Rightarrow> nat" where
  "fresh_handle xs = Suc (Max (insert 2 (set xs)))"

definition sock_connect :: "string \<Rightarrow> world \<Rightarrow> (errno + nat) \<times> world" where
  \<comment> \<open>\<^verbatim>\<open>sock = socket.socket(AF_UNIX); sock.connect(path)\<close>\<close>
  "sock_connect p w =
     (case endpoints w p of
        Missing \<Rightarrow> (Inl ENOENT, w)
      | Refusing \<Rightarrow> (Inl ECONNREFUSED, w)
      | Denied \<Rightarrow> (Inl EACCES, w)
      | Listening \<Rightarrow>
          (let hnd = fresh_handle (handles w) in (Inr hnd, w\<lparr>handles := hnd # handles w\<rparr>)))"

definition open_pipe :: "string \<Rightarrow> world \<Rightarrow> (errno + nat) \<times> world" where
  \<comment> \<open>\<^verbatim>\<open>open(path, 'r+b', buffering=0)\<close>\<close>
  "open_pipe p w =
     (case endpoints w p of
        Missing \<Rightarrow> (Inl ENOENT, w)
      | Refusing \<Rightarrow> (Inl EINVAL, w)
      | Denied \<Rightarrow> (Inl EACCES, w)
      | Listening \<Rightarrow>
          (let hnd = fresh_handle (handles w) in (Inr hnd, w\<lparr>handles := hnd # handles w\<rparr>)))"

definition pipe_close :: "nat \<Rightarrow> world \<Rightarrow> (errno + unit) \<times> world" where
  "pipe_close hnd w =
     (if hnd \<notin> set (handles w) then (Inl EBADF, w)
      else (Inr (), w\<lparr>handles := remove1 hnd (handles w)\<rparr>))"

definition connect ::
  "ref \<Rightarrow> (ref \<Rightarrow> SocketClient) \<times> world \<Rightarrow> (exn + ConnectSocket) \<times> (ref \<Rightarrow> SocketClient) \<times> world" where
  "connect self st =
     (case st of (h, w) \<Rightarrow>
      if \<not> is_connect (h self) then
        (case socket_path (h self) w of
           (Inl x, c1) \<Rightarrow> (Inl x, h(self := c1), w)
         | (Inr p, c1) \<Rightarrow>
             (case (if windows w then open_pipe p (log_debug ''Attempting to connecting socket'' w)
                    else sock_connect p (log_debug ''Attempting to connecting socket'' w)) of
                (Inl e, w1) \<Rightarrow>
                  if FileNotFoundError e \<or> ConnectionRefusedError e then
                    (Inr (ConnectSocket self),
                     h(self := c1\<lparr>priv_pipe := None\<rparr>),
                     log_exception ''Socket connection failed'' w1)
                  else (Inl (OSError e), h(self := c1), w1)
              | (Inr hnd, w1) \<Rightarrow>
                  (Inr (ConnectSocket self),
                   h(self := c1\<lparr>priv_pipe := Some hnd\<rparr>),
                   log_debug ''Socket connection established'' w1)))
      else (Inr (ConnectSocket self), h, w))"

definition disconnect ::
  "ref \<Rightarrow> (ref \<Rightarrow> SocketClient) \<times> world \<Rightarrow> (exn + unit) \<times> (ref \<Rightarrow> SocketClient) \<times> world" where
  "disconnect self st =
     (case st of (h, w) \<Rightarrow>
      (case priv_pipe (h self) of
         None \<Rightarrow> (Inr (), h, w)
       | Some pipe \<Rightarrow>
           (case socket_path (h self) w of
              (Inl x, c1) \<Rightarrow> (Inl x, h(self := c1), w)
            | (Inr p, c1) \<Rightarrow>
                (case pipe_close pipe (log_debug ''Disconnecting socket'' w) of
                   (Inl e, w1) \<Rightarrow>
                     (Inr (), h(self := c1), log_exception ''Socket close failed'' w1)
                 | (Inr u, w1) \<Rightarrow>
                     (Inr (),
                      h(self := c1\<lparr>priv_pipe := None\<rparr>),
                      log_debug ''Socket disconnected successfully'' w1)))))"

definition ConnectSocket_exit ::
  "ConnectSocket \<Rightarrow> (ref \<Rightarrow> SocketClient) \<times> world \<Rightarrow> (exn + unit) \<times> (ref \<Rightarrow> SocketClient) \<times> world" where
  "ConnectSocket_exit g st = disconnect (socket g) st"


section \<open>Predicates and sample states used to state the properties\<close>

text \<open>
  A client holds the lock when the descriptor it remembers is open and is the one
  through which the advisory lock is held.
\<close>

definition holds_lock :: "LockClient \<Rightarrow> world \<Rightarrow> bool" where
  "holds_lock c w =
     (case priv_fd c of
        None \<Rightarrow> False
      | Some fd \<Rightarrow> fd \<in> set (fds w) \<and> lock_fd w = Some fd)"




definition posix_world :: world where
  "posix_world =
     \<lparr>windows = False, present = False, dir_writable = True, rw_allowed = True,
      fchmod_permitted = True, locking_supported = True, foreign_lock = False,
      fds = [], lock_fd = None, file_mode = 0, clock = 0, logged = [],
      environ = Map.empty, endpoints = (\<lambda>p. Missing), handles = []\<rparr>"

definition held_world :: world where
  "held_world = posix_world\<lparr>present := True, fds := [3], lock_fd := Some 3, file_mode := 420\<rparr>"

definition holder :: LockClient where
  "holder = \<lparr>priv_mode = 420, priv_fd = Some 3\<rparr>"


text \<open>
  The polls of \<^verbatim>\<open>wait\<close>: the world at the next poll is the world after this poll's
  probe, one interval later, with the activity of the other processes applied.
  \<open>running_at\<close> is what the poll number \<open>k\<close> observes, and \<open>timed_out\<close> is the loop's test
  of the elapsed time against the timeout.
\<close>

definition next_poll :: "outside \<Rightarrow> LockClient \<Rightarrow> real \<Rightarrow> world \<Rightarrow> world" where
  "next_poll out c interval w =
     others_act out
       ((snd (exists_running c w))\<lparr>clock := clock (snd (exists_running c w)) + interval\<rparr>)"

primrec poll_world :: "outside \<Rightarrow> LockClient \<Rightarrow> real \<Rightarrow> world \<Rightarrow> nat \<Rightarrow> world" where
  "poll_world out c interval w 0 = w"
| "poll_world out c interval w (Suc k) = next_poll out c interval (poll_world out c interval w k)"

definition running_at :: "outside \<Rightarrow> LockClient \<Rightarrow> real \<Rightarrow> world \<Rightarrow> nat \<Rightarrow> bool" where
  "running_at out c interval w k = fst (exists_running c (poll_world out c interval w k))"

definition timed_out :: "real option \<Rightarrow> real \<Rightarrow> bool" where
  "timed_out timeout elapsed = (case timeout of None \<Rightarrow> False | Some t \<Rightarrow> elapsed \<ge> t)"

text \<open>Two schedules of the other processes: another instance holds the lock on the
  file until a given instant and then removes the file, or holds it for ever.\<close>

definition leaves_at :: "real \<Rightarrow> outside" where
  "leaves_at d = (\<lambda>t. (t < d, t < d))"

definition stays :: outside where
  "stays = (\<lambda>t. (True, True))"

definition busy_world :: world where
  "busy_world = posix_world\<lparr>present := True, foreign_lock := True\<rparr>"

text \<open>
  An environment variable is populated when it is set to a non-empty string, which is
  what \<^verbatim>\<open>if base_dir:\<close> tests.
\<close>

definition populated :: "world \<Rightarrow> string \<Rightarrow> string option" where
  "populated w var =
     (case environ w var of
        None \<Rightarrow> None
      | Some b \<Rightarrow> if b = [] then None else Some b)"

text \<open>
  A plain directory is an absolute path in the form pathlib prints it (one leading slash,
  no empty or \<open>.\<close> component, no trailing slash) other than the root; a plain name is a
  non-empty string without a slash.
\<close>

definition plain_dir :: "string \<Rightarrow> bool" where
  "plain_dir b \<longleftrightarrow>
     path_str b = b \<and> take 1 b = ''/'' \<and> take 1 (drop 1 b) \<noteq> ''/'' \<and> b \<noteq> ''/''"

definition plain_name :: "string \<Rightarrow> bool" where
  "plain_name nm \<longleftrightarrow> nm \<noteq> [] \<and> CHR ''/'' \<notin> set nm"

definition app_client :: SocketClient where
  "app_client = \<lparr>name = ''app'', default_path = None, priv_pipe = None, socket_path_cache = None\<rparr>"

definition connected_client :: SocketClient where
  "connected_client =
     \<lparr>name = ''app'', default_path = None, priv_pipe = Some 3,
      socket_path_cache = Some ''/home/u/.app''\<rparr>"

definition home_world :: world where
  "home_world = posix_world\<lparr>environ := [''HOME'' \<mapsto> ''/home/u'']\<rparr>"

section \<open>Properties of LockClient\<close>

lemma fresh_fd_notin: "fresh_fd xs \<notin> set xs"
proof
  assume "fresh_fd xs \<in> set xs"
  then have "fresh_fd xs \<le> Max (insert 2 (set xs))" by simp
  then show False by (simp add: fresh_fd_def)
qed

lemma os_open_excl_Inr:
  "os_open_excl m w = (Inr fd, w1) \<Longrightarrow>
     fd = fresh_fd (fds w) \<and> \<not> present w \<and> dir_writable w \<and>
     w1 = w\<lparr>present := True, file_mode := m, fds := fd # fds w\<rparr>"
  by (auto simp: os_open_excl_def Let_def split: if_splits)

lemma os_open_excl_logged:
  "os_open_excl m (w\<lparr>logged := l\<rparr>) =
     (fst (os_open_excl m w), (snd (os_open_excl m w))\<lparr>logged := l\<rparr>)"
  by (simp add: os_open_excl_def Let_def)

lemma try_lock_Inl: "try_lock fd w = (Inl e, w') \<Longrightarrow> w' = w"
  by (auto simp: try_lock_def split: if_splits)

lemma try_lock_logged:
  "try_lock fd (w\<lparr>logged := l\<rparr>) = (fst (try_lock fd w), (snd (try_lock fd w))\<lparr>logged := l\<rparr>)"
  by (auto simp: try_lock_def lock_conflict_def)

text \<open>
  C9. Calling \<^verbatim>\<open>acquire\<close> on a client that already holds the lock changes nothing: the
  heap (descriptor, \<open>is_locked\<close>) and the world (file system, descriptors, log) are
  returned as they were, no exception is raised and the guard for this client is returned.
\<close>

theorem acquire_held_noop:
  "is_locked (h self) \<Longrightarrow> acquire self (h, w) = (Inr (AcquireLock self), h, w)"
  by (simp add: acquire_def)

theorem acquire_held_noop_witness:
  "is_locked holder \<and>
   acquire 0 (\<lambda>r. holder, held_world) = (Inr (AcquireLock 0), \<lambda>r. holder, held_world)"
  using acquire_held_noop [of "\<lambda>r. holder" 0 held_world]
  by (simp add: is_locked_def holder_def)

text \<open>
  C4. On a client that does not hold the lock, a failure of the exclusive create-and-open
  step (the file exists already, or permission is denied), or a failure of the
  non-blocking lock step after a successful open (the lock is held elsewhere, locking is
  unsupported), leaves the client not held, raises nothing and returns the guard of this
  client, whose exit is \<^verbatim>\<open>release\<close> on the client.
\<close>

theorem acquire_failure_degrades:
  assumes "\<not> is_locked (h self)"
    and "(\<exists>e. fst (os_open_excl (priv_mode (h self)) w) = Inl e) \<or>
         (\<exists>fd w1 e. os_open_excl (priv_mode (h self)) w = (Inr fd, w1)
                    \<and> fst (try_lock fd w1) = Inl e)"
  shows "\<exists>h' w'. acquire self (h, w) = (Inr (AcquireLock self), h', w')
           \<and> \<not> is_locked (h' self)
           \<and> (\<forall>st. AcquireLock_exit (AcquireLock self) st = release self st)"
proof -
  have ex: "\<forall>st. AcquireLock_exit (AcquireLock self) st = release self st"
    by (simp add: AcquireLock_exit_def)
  from assms(2) show ?thesis
  proof (elim disjE exE conjE)
    fix e assume "fst (os_open_excl (priv_mode (h self)) w) = Inl e"
    then obtain w1 where "os_open_excl (priv_mode (h self)) w = (Inl e, w1)"
      by (cases "os_open_excl (priv_mode (h self)) w") auto
    then show ?thesis using assms(1) ex
      by (simp add: acquire_def log_debug_def os_open_excl_logged is_locked_def)
  next
    fix fd w1 e
    assume a: "os_open_excl (priv_mode (h self)) w = (Inr fd, w1)" "fst (try_lock fd w1) = Inl e"
    obtain w2 where tl: "try_lock fd w1 = (Inl e, w2)"
      using a(2) by (cases "try_lock fd w1") auto
    have w2: "w2 = w1" using tl by (rule try_lock_Inl)
    note o = os_open_excl_Inr [OF a(1)]
    show ?thesis
      using assms(1) a(1) tl o ex w2
      by (simp add: acquire_def log_debug_def os_open_excl_logged try_lock_logged
          log_warning_def log_exception_def os_close_def is_locked_def)
  qed
qed

text \<open>
  Witness: the lock file exists already; the directory refuses the new file; the file is
  created but another process takes the lock first.
\<close>

theorem acquire_failure_degrades_witness:
  "\<not> is_locked new_LockClient \<and>
   fst (os_open_excl 420 (posix_world\<lparr>present := True\<rparr>)) = Inl EEXIST \<and>
   (\<exists>h' w'. acquire 0 (\<lambda>r. new_LockClient, posix_world\<lparr>present := True\<rparr>)
               = (Inr (AcquireLock 0), h', w')
       \<and> \<not> is_locked (h' 0)
       \<and> (\<forall>st. AcquireLock_exit (AcquireLock 0) st = release 0 st)) \<and>
   fst (os_open_excl 420 (posix_world\<lparr>dir_writable := False\<rparr>)) = Inl EACCES \<and>
   (\<exists>h' w'. acquire 0 (\<lambda>r. new_LockClient, posix_world\<lparr>dir_writable := False\<rparr>)
               = (Inr (AcquireLock 0), h', w')
       \<and> \<not> is_locked (h' 0)) \<and>
   fst (try_lock 3 (snd (os_open_excl 420 (posix_world\<lparr>foreign_lock := True\<rparr>)))) = Inl EAGAIN \<and>
   (\<exists>h' w'. acquire 0 (\<lambda>r. new_LockClient, posix_world\<lparr>foreign_lock := True\<rparr>)
               = (Inr (AcquireLock 0), h', w')
       \<and> \<not> is_locked (h' 0))"
proof -
  have nl: "\<not> is_locked ((\<lambda>r. new_LockClient) (0::nat))"
    by (simp add: is_locked_def new_LockClient_def)
  have m: "priv_mode ((\<lambda>r. new_LockClient) (0::nat)) = 420" by (simp add: new_LockClient_def)
  have o1: "fst (os_open_excl 420 (posix_world\<lparr>present := True\<rparr>)) = Inl EEXIST"
    by (simp add: os_open_excl_def posix_world_def)
  have o2: "fst (os_open_excl 420 (posix_world\<lparr>dir_writable := False\<rparr>)) = Inl EACCES"
    by (simp add: os_open_excl_def posix_world_def)
  have o3: "os_open_excl 420 (posix_world\<lparr>foreign_lock := True\<rparr>)
      = (Inr 3, posix_world\<lparr>foreign_lock := True, present := True, file_mode := 420, fds := [3]\<rparr>)"
    by (simp add: os_open_excl_def fresh_fd_def posix_world_def)
  have t3: "fst (try_lock 3 (posix_world\<lparr>foreign_lock := True, present := True,
                                         file_mode := 420, fds := [3]\<rparr>)) = Inl EAGAIN"
    by (simp add: try_lock_def lock_conflict_def posix_world_def)
  have a1: "\<exists>h' w'. acquire 0 (\<lambda>r. new_LockClient, posix_world\<lparr>present := True\<rparr>)
               = (Inr (AcquireLock 0), h', w')
       \<and> \<not> is_locked (h' 0)
       \<and> (\<forall>st. AcquireLock_exit (AcquireLock 0) st = release 0 st)"
    using acquire_failure_degrades [of "\<lambda>r. new_LockClient" 0 "posix_world\<lparr>present := True\<rparr>"]
          nl m o1 by simp
  have a2: "\<exists>h' w'. acquire 0 (\<lambda>r. new_LockClient, posix_world\<lparr>dir_writable := False\<rparr>)
               = (Inr (AcquireLock 0), h', w') \<and> \<not> is_locked (h' 0)"
    using acquire_failure_degrades [of "\<lambda>r. new_LockClient" 0 "posix_world\<lparr>dir_writable := False\<rparr>"]
          nl m o2 by auto
  have a3: "\<exists>h' w'. acquire 0 (\<lambda>r. new_LockClient, posix_world\<lparr>foreign_lock := True\<rparr>)
               = (Inr (AcquireLock 0), h', w') \<and> \<not> is_locked (h' 0)"
    using acquire_failure_degrades [of "\<lambda>r. new_LockClient" 0 "posix_world\<lparr>foreign_lock := True\<rparr>"]
          nl m o3 t3 by auto
  show ?thesis using nl o1 o2 o3 t3 a1 a2 a3 by simp
qed

text \<open>
  C10. When \<^verbatim>\<open>acquire\<close> creates the lock file and the lock step on the new descriptor
  then fails, the descriptor is closed and the client is not held, but the file that was
  just created stays on disk: \<^verbatim>\<open>acquire\<close> never removes it.
\<close>

theorem acquire_lock_failure_keeps_file:
  assumes "\<not> is_locked (h self)"
    and "os_open_excl (priv_mode (h self)) w = (Inr fd, w1)"
    and "fst (try_lock fd w1) = Inl e"
  shows "\<exists>h' w'. acquire self (h, w) = (Inr (AcquireLock self), h', w')
           \<and> \<not> is_locked (h' self) \<and> fd \<notin> set (fds w') \<and> \<not> present w \<and> present w'"
proof -
  obtain w2 where tl: "try_lock fd w1 = (Inl e, w2)"
    using assms(3) by (cases "try_lock fd w1") auto
  have w2: "w2 = w1" using tl by (rule try_lock_Inl)
  note o = os_open_excl_Inr [OF assms(2)]
  have nin: "fd \<notin> set (fds w)" using o fresh_fd_notin by simp
  show ?thesis
    using assms(1) assms(2) tl nin o w2
    by (simp add: acquire_def log_debug_def os_open_excl_logged try_lock_logged
          log_warning_def log_exception_def os_close_def is_locked_def)
qed

theorem acquire_lock_failure_keeps_file_witness:
  "\<not> is_locked new_LockClient \<and>
   os_open_excl 420 (posix_world\<lparr>locking_supported := False\<rparr>)
     = (Inr 3, posix_world\<lparr>locking_supported := False, present := True, file_mode := 420, fds := [3]\<rparr>) \<and>
   fst (try_lock 3 (posix_world\<lparr>locking_supported := False, present := True, file_mode := 420, fds := [3]\<rparr>))
     = Inl ENOSYS \<and>
   (\<exists>h' w'. acquire 0 (\<lambda>r. new_LockClient, posix_world\<lparr>locking_supported := False\<rparr>)
               = (Inr (AcquireLock 0), h', w')
       \<and> \<not> is_locked (h' 0) \<and> 3 \<notin> set (fds w')
       \<and> \<not> present (posix_world\<lparr>locking_supported := False\<rparr>) \<and> present w')"
  using acquire_lock_failure_keeps_file
    [of "\<lambda>r. new_LockClient" 0 "posix_world\<lparr>locking_supported := False\<rparr>" 3
        "posix_world\<lparr>locking_supported := False, present := True, file_mode := 420, fds := [3]\<rparr>"
        ENOSYS]
  by (simp add: is_locked_def new_LockClient_def os_open_excl_def try_lock_def fresh_fd_def
        posix_world_def)


subsection \<open>release\<close>

lemma release_try_fails_iff:
  "isl (fst (release_try fd m w)) \<longleftrightarrow> fd \<notin> set (fds w) \<or> (windows w \<and> lock_fd w \<noteq> Some fd)"
  by (auto simp: release_try_def os_fchmod_def os_close_def PermissionError_def)

lemma release_try_frame:
  "release_try fd m w = (r, w') \<Longrightarrow>
     present w' = present w \<and> dir_writable w' = dir_writable w \<and> logged w' = logged w"
  by (auto simp: release_try_def os_fchmod_def os_close_def PermissionError_def split: if_splits)

text \<open>
  A successful \<^verbatim>\<open>acquire\<close> puts the client into the state that \<open>holds_lock\<close> describes,
  in a directory that accepted the new file.
\<close>

lemma acquire_establishes_hold:
  assumes "acquire self (h, w) = (r, h', w')" and "\<not> is_locked (h self)" and "is_locked (h' self)"
  shows "holds_lock (h' self) w' \<and> dir_writable w' \<and> present w'"
proof -
  let ?w0 = "log_debug ''Acquiring lock on file'' w"
  obtain r1 w1 where o: "os_open_excl (priv_mode (h self)) ?w0 = (r1, w1)"
    by (cases "os_open_excl (priv_mode (h self)) ?w0") auto
  show ?thesis
  proof (cases r1)
    case (Inl e)
    then show ?thesis using assms o by (auto simp: acquire_def is_locked_def)
  next
    case (Inr fd)
    note oi = os_open_excl_Inr [OF o [unfolded Inr]]
    obtain r2 w2 where t: "try_lock fd w1 = (r2, w2)" by (cases "try_lock fd w1") auto
    show ?thesis
    proof (cases r2)
      case (Inl e)
      have "w2 = w1" using t Inl try_lock_Inl by simp
      then show ?thesis
        using assms o Inr t Inl oi
        by (cases "e = EACCES"; cases "e = ENOSYS")
           (auto simp: acquire_def is_locked_def os_close_def log_warning_def log_exception_def
              log_debug_def)
    next
      case (Inr u)
      have "fd \<in> set (fds w2) \<and> lock_fd w2 = Some fd \<and> dir_writable w2 \<and> present w2"
        using t Inr oi by (auto simp: try_lock_def log_debug_def split: if_splits)
      then show ?thesis
        using assms o \<open>r1 = Inr fd\<close> t Inr
        by (auto simp: acquire_def is_locked_def holds_lock_def)
    qed
  qed
qed

text \<open>
  C2, as the code has it. For a client that holds the lock through a descriptor that is
  still open and owns the advisory lock, the client reports \<open>is_locked\<close> false after
  \<^verbatim>\<open>release\<close>. The lock file no longer exists afterwards, and \<^verbatim>\<open>release\<close> returns
  normally, unless the file is there and may not be removed from its directory: then the
  PermissionError of the unlink is raised to the caller and the file stays.
\<close>

theorem release_clean:
  assumes "holds_lock (h self) w"
  shows "\<exists>r h' w'. release self (h, w) = (r, h', w') \<and> \<not> is_locked (h' self) \<and>
           (if present w \<and> \<not> dir_writable w
            then r = Inl (OSError EACCES) \<and> present w'
            else r = Inr () \<and> \<not> present w')"
proof -
  obtain fd where fd: "priv_fd (h self) = Some fd" "fd \<in> set (fds w)" "lock_fd w = Some fd"
    using assms by (auto simp: holds_lock_def split: option.splits)
  let ?wl = "log_debug ''Release lock'' (w\<lparr>clock := clock w + 3 / 10\<rparr>)"
  obtain r w1 where rt: "release_try fd (priv_mode (h self)) ?wl = (r, w1)"
    by (cases "release_try fd (priv_mode (h self)) ?wl") auto
  have "\<not> isl (fst (release_try fd (priv_mode (h self)) ?wl))"
    using fd by (simp add: release_try_fails_iff log_debug_def)
  then obtain u where r: "r = Inr u" using rt by (cases r) auto
  have fr: "dir_writable w1 = dir_writable w" "present w1 = present w"
    using release_try_frame [OF rt] by (simp_all add: log_debug_def)
  show ?thesis
    using fd rt r fr
    by (simp add: release_def time_sleep_def unlink_missing_ok_def log_debug_def is_locked_def
          FileNotFoundError_def)
qed

text \<open>
  Witness: the client and the world that a successful \<^verbatim>\<open>acquire\<close> leaves behind, where
  the release is clean; and a holder in a directory that has since become read-only.
\<close>

theorem release_clean_witness:
  "holds_lock (fst (snd (acquire 0 (\<lambda>r. new_LockClient, posix_world))) 0)
              (snd (snd (acquire 0 (\<lambda>r. new_LockClient, posix_world)))) \<and>
   (\<exists>h' w'. release 0 (snd (acquire 0 (\<lambda>r. new_LockClient, posix_world))) = (Inr (), h', w')
       \<and> \<not> is_locked (h' 0) \<and> \<not> present w') \<and>
   holds_lock holder (held_world\<lparr>dir_writable := False\<rparr>) \<and>
   (\<exists>h' w'. release 0 (\<lambda>r. holder, held_world\<lparr>dir_writable := False\<rparr>)
               = (Inl (OSError EACCES), h', w')
       \<and> \<not> is_locked (h' 0) \<and> present w')"
proof -
  have acq: "acquire 0 (\<lambda>r. new_LockClient, posix_world)
      = (Inr (AcquireLock 0), (\<lambda>r. new_LockClient)(0 := holder),
         log_debug ''Acquiring lock on file'' held_world)"
    by (simp add: acquire_def os_open_excl_def try_lock_def lock_conflict_def fresh_fd_def
          is_locked_def new_LockClient_def holder_def held_world_def posix_world_def log_debug_def)
  have hl: "holds_lock (((\<lambda>r. new_LockClient)(0 := holder)) 0)
              (log_debug ''Acquiring lock on file'' held_world)"
    by (simp add: holds_lock_def holder_def held_world_def posix_world_def log_debug_def)
  have pw: "present (log_debug ''Acquiring lock on file'' held_world)"
           "dir_writable (log_debug ''Acquiring lock on file'' held_world)"
    by (simp_all add: held_world_def posix_world_def log_debug_def)
  have one: "\<exists>h' w'. release 0 ((\<lambda>r. new_LockClient)(0 := holder),
                                log_debug ''Acquiring lock on file'' held_world)
                        = (Inr (), h', w') \<and> \<not> is_locked (h' 0) \<and> \<not> present w'"
    using release_clean [of "(\<lambda>r. new_LockClient)(0 := holder)" 0
                            "log_debug ''Acquiring lock on file'' held_world"] hl pw
    by auto
  have hl2: "holds_lock ((\<lambda>r. holder) (0::nat)) (held_world\<lparr>dir_writable := False\<rparr>)"
    by (simp add: holds_lock_def holder_def held_world_def posix_world_def)
  have pw2: "present (held_world\<lparr>dir_writable := False\<rparr>)"
            "\<not> dir_writable (held_world\<lparr>dir_writable := False\<rparr>)"
    by (simp_all add: held_world_def posix_world_def)
  have two: "\<exists>h' w'. release 0 (\<lambda>r. holder, held_world\<lparr>dir_writable := False\<rparr>)
               = (Inl (OSError EACCES), h', w') \<and> \<not> is_locked (h' 0) \<and> present w'"
    using release_clean [of "\<lambda>r. holder" 0 "held_world\<lparr>dir_writable := False\<rparr>"] hl2 pw2
    by auto
  show ?thesis using hl one hl2 two by (simp add: acq)
qed

text \<open>
  The sentence of the specification fails in two ways. A holder whose directory no longer
  allows removal: \<^verbatim>\<open>release\<close> raises the PermissionError of the unlink (only
  FileNotFoundError is suppressed there) and the lock file is still on disk. A client that
  reports \<open>is_locked\<close> true but whose descriptor is no longer open: the unlock sequence
  fails and the client still reports \<open>is_locked\<close> true after \<^verbatim>\<open>release\<close>.
\<close>

theorem release_not_clean_counterexample:
  "is_locked holder \<and> holds_lock holder (held_world\<lparr>dir_writable := False\<rparr>) \<and>
   fst (release 0 (\<lambda>r. holder, held_world\<lparr>dir_writable := False\<rparr>)) = Inl (OSError EACCES) \<and>
   present (snd (snd (release 0 (\<lambda>r. holder, held_world\<lparr>dir_writable := False\<rparr>)))) \<and>
   \<not> holds_lock holder (posix_world\<lparr>present := True\<rparr>) \<and>
   is_locked (fst (snd (release 0 (\<lambda>r. holder, posix_world\<lparr>present := True\<rparr>))) 0)"
  by (simp add: release_def release_try_def os_fchmod_def os_close_def time_sleep_def
        unlink_missing_ok_def is_locked_def holds_lock_def holder_def held_world_def
        posix_world_def log_debug_def log_exception_def PermissionError_def
        FileNotFoundError_def)

text \<open>
  C3, as the code has it. \<^verbatim>\<open>release\<close> on a client that is not held is a no-op. On a held
  client, when the unlock / restore-permissions / close sequence raises (the \<^verbatim>\<open>try\<close>
  suite ends in an error), the error is logged as \<open>Lock release failed\<close> and the client
  still reports \<open>is_locked\<close> true; when the sequence completes, the client reports
  \<open>is_locked\<close> false. A PermissionError of the restore-permissions step is not an error
  of the sequence: it is suppressed, and the sequence goes on.
\<close>

theorem release_failure_keeps_held:
  "(\<not> is_locked (h self) \<longrightarrow> release self (h, w) = (Inr (), h, w)) \<and>
   (\<forall>fd. priv_fd (h self) = Some fd \<longrightarrow>
      (\<exists>r h' w'. release self (h, w) = (r, h', w') \<and>
         (case fst (release_try fd (priv_mode (h self))
                      (log_debug ''Release lock'' (w\<lparr>clock := clock w + 3 / 10\<rparr>))) of
            Inl e \<Rightarrow> is_locked (h' self) \<and> (ERROR, ''Lock release failed'') \<in> set (logged w')
          | Inr u \<Rightarrow> \<not> is_locked (h' self))))"
proof (intro conjI allI impI)
  assume "\<not> is_locked (h self)"
  then show "release self (h, w) = (Inr (), h, w)"
    by (simp add: release_def is_locked_def)
next
  fix fd assume fd: "priv_fd (h self) = Some fd"
  let ?w0 = "log_debug ''Release lock'' (w\<lparr>clock := clock w + 3 / 10\<rparr>)"
  obtain r w1 where rt: "release_try fd (priv_mode (h self)) ?w0 = (r, w1)"
    by (cases "release_try fd (priv_mode (h self)) ?w0") auto
  show "\<exists>r h' w'. release self (h, w) = (r, h', w') \<and>
         (case fst (release_try fd (priv_mode (h self)) ?w0) of
            Inl e \<Rightarrow> is_locked (h' self) \<and> (ERROR, ''Lock release failed'') \<in> set (logged w')
          | Inr u \<Rightarrow> \<not> is_locked (h' self))"
    using fd rt
    by (cases r)
       (auto simp: release_def time_sleep_def unlink_missing_ok_def is_locked_def
          log_exception_def log_debug_def FileNotFoundError_def)
qed

text \<open>
  Witness: a held client whose descriptor is no longer open. The sequence fails with
  \<open>EBADF\<close>, the failure is logged and the client stays held. A fresh client is untouched.
\<close>

theorem release_failure_keeps_held_witness:
  "release 0 (\<lambda>r. new_LockClient, posix_world) = (Inr (), \<lambda>r. new_LockClient, posix_world) \<and>
   priv_fd holder = Some 3 \<and>
   (\<exists>r h' w'. release 0 (\<lambda>r. holder, posix_world\<lparr>present := True\<rparr>) = (r, h', w') \<and>
       is_locked (h' 0) \<and> (ERROR, ''Lock release failed'') \<in> set (logged w'))"
  using release_failure_keeps_held [of "\<lambda>r. new_LockClient" 0 posix_world]
        release_failure_keeps_held [of "\<lambda>r. holder" 0 "posix_world\<lparr>present := True\<rparr>"]
  by (simp add: is_locked_def new_LockClient_def holder_def posix_world_def release_try_def
        os_fchmod_def log_debug_def PermissionError_def)

text \<open>
  The sentence of the specification fails where the restore-permissions step is denied:
  an error occurs in the sequence, nothing is logged at error severity, and the state is
  reset.
\<close>

theorem release_suppressed_error_counterexample:
  "is_locked holder \<and>
   fst (os_fchmod 3 420 (held_world\<lparr>fchmod_permitted := False\<rparr>)) = Inl EPERM \<and>
   \<not> is_locked (fst (snd (release 0 (\<lambda>r. holder, held_world\<lparr>fchmod_permitted := False\<rparr>))) 0) \<and>
   (ERROR, ''Lock release failed'')
      \<notin> set (logged (snd (snd (release 0 (\<lambda>r. holder, held_world\<lparr>fchmod_permitted := False\<rparr>)))))"
  by (simp add: release_def release_try_def os_fchmod_def os_close_def time_sleep_def
        unlink_missing_ok_def is_locked_def holder_def held_world_def posix_world_def
        log_debug_def log_exception_def PermissionError_def FileNotFoundError_def)

subsection \<open>exists_running\<close>

lemma open_rw_Inr: "open_rw w = (Inr fd, w1) \<Longrightarrow> fd \<in> set (fds w1)"
  by (auto simp: open_rw_def Let_def split: if_splits)

lemma probe_body_fds: "fds (snd (probe_body fd w)) = fds w"
  by (auto simp: probe_body_def split: if_splits)

lemma probe_fails_iff:
  "isl (fst (probe w)) \<longleftrightarrow>
     (case open_rw w of
        (Inl e, w1) \<Rightarrow> True
      | (Inr fd, w1) \<Rightarrow> isl (fst (probe_body fd w1)))"
proof (cases "open_rw w")
  case (Pair r w1)
  show ?thesis
  proof (cases r)
    case (Inl e)
    then show ?thesis using Pair by (simp add: probe_def)
  next
    case (Inr fd)
    obtain r2 w2 where pb: "probe_body fd w1 = (r2, w2)" by (cases "probe_body fd w1") auto
    have "fd \<in> set (fds w1)" using Pair Inr open_rw_Inr by simp
    then have "fd \<in> set (fds w2)" using probe_body_fds [of fd w1] pb by simp
    then show ?thesis using Pair Inr pb by (simp add: probe_def os_close_def)
  qed
qed







text \<open>
  Outside C1 as amended: on the socket-style platform the probe passes \<^verbatim>\<open>fcntl.LOCK_NB\<close>
  alone, where \<^verbatim>\<open>acquire\<close> passes \<^verbatim>\<open>LOCK_EX | LOCK_NB\<close>. That word names no lock
  operation, the attempt never succeeds, and a lock file that exists is answered true to
  every client that does not hold it, locked or not.
\<close>

lemma exists_running_posix_probe:
  assumes "\<not> windows w" and "\<not> is_locked c" and "present w"
  shows "fst (exists_running c w)"
proof -
  have "isl (fst (probe w))"
    using assms(1) by (auto simp: probe_fails_iff open_rw_def Let_def probe_body_def)
  then show ?thesis
    using assms(2,3) by (cases "probe w"; cases "fst (probe w)") (auto simp: exists_running_def)
qed

subsection \<open>wait\<close>

lemma probe_body_clock: "clock (snd (probe_body fd w)) = clock w"
  by (auto simp: probe_body_def split: if_splits)

lemma probe_clock: "clock (snd (probe w)) = clock w"
proof (cases "open_rw w")
  case (Pair r w1)
  have c1: "clock w1 = clock w" using Pair by (auto simp: open_rw_def Let_def split: if_splits)
  show ?thesis
  proof (cases r)
    case (Inl e)
    then show ?thesis using Pair c1 by (simp add: probe_def)
  next
    case (Inr fd)
    obtain r2 w2 where pb: "probe_body fd w1 = (r2, w2)" by (cases "probe_body fd w1") auto
    have "clock w2 = clock w" using probe_body_clock [of fd w1] pb c1 by simp
    then show ?thesis using Pair Inr pb by (auto simp: probe_def os_close_def)
  qed
qed

lemma exists_running_clock: "clock (snd (exists_running c w)) = clock w"
  using probe_clock [of w]
  by (cases "probe w"; cases "fst (probe w)") (auto simp: exists_running_def)

lemma next_poll_clock: "clock (next_poll out c i w) = clock w + i"
  by (simp add: next_poll_def others_act_def exists_running_clock)

lemma poll_world_clock: "clock (poll_world out c i w k) = clock w + real k * i"
  by (induction k) (simp_all add: next_poll_clock algebra_simps)

text \<open>The three exits of one round of the loop.\<close>

lemma wait_loop_stop:
  assumes "\<not> fst (exists_running c w)"
  shows "wait_loop out c timeout i start w = Some (Inr True, snd (exists_running c w))"
  using assms by (subst wait_loop.simps) (simp add: case_prod_beta)

lemma wait_loop_timeout:
  assumes "fst (exists_running c w)" and "timed_out timeout (clock w - start)"
  shows "wait_loop out c timeout i start w = Some (Inr False, snd (exists_running c w))"
  using assms
  by (subst wait_loop.simps)
     (cases timeout; simp add: case_prod_beta timed_out_def exists_running_clock)

lemma wait_loop_step:
  assumes "fst (exists_running c w)" and "\<not> timed_out timeout (clock w - start)" and "0 \<le> i"
  shows "wait_loop out c timeout i start w = wait_loop out c timeout i start (next_poll out c i w)"
  using assms
  by (subst wait_loop.simps)
     (cases timeout;
      simp add: case_prod_beta timed_out_def exists_running_clock time_sleep_def next_poll_def)

lemma wait_loop_steps:
  assumes "0 \<le> i"
    and "\<forall>k<n. running_at out c i w k \<and> \<not> timed_out timeout (clock w + real k * i - start)"
  shows "wait_loop out c timeout i start w
           = wait_loop out c timeout i start (poll_world out c i w n)"
  using assms(2)
proof (induction n)
  case 0
  show ?case by simp
next
  case (Suc n)
  have "wait_loop out c timeout i start w
          = wait_loop out c timeout i start (poll_world out c i w n)"
    using Suc by simp
  also have "\<dots> = wait_loop out c timeout i start (next_poll out c i (poll_world out c i w n))"
    using Suc.prems assms(1)
    by (intro wait_loop_step) (simp_all add: running_at_def poll_world_clock)
  finally show ?case by simp
qed

text \<open>
  C7. The clock of the model advances by sleeping only, so the polls of
  \<^verbatim>\<open>wait(timeout, interval)\<close> happen \<open>0, interval, 2 * interval, ...\<close> after the start.
  For a positive interval:
  \<^item> when a poll observes \<open>exists_running\<close> false and every earlier poll observed true
    before the timeout had elapsed, \<^verbatim>\<open>wait\<close> returns true at that poll;
  \<^item> with a timeout \<open>t \<ge> 0\<close>, \<^verbatim>\<open>wait\<close> always returns, less than \<open>t + interval\<close> after
    the start, and it returns false when every poll made within that time observes true.
\<close>

theorem wait_semantics:
  assumes "0 < i"
  shows
   "(\<forall>n. (\<forall>k<n. running_at out c i (log_debug ''Wait for other lock to end'' w) k
                 \<and> \<not> timed_out timeout (real k * i))
          \<and> \<not> running_at out c i (log_debug ''Wait for other lock to end'' w) n
        \<longrightarrow> (\<exists>w'. wait c out timeout i w = Some (Inr True, w') \<and> clock w' = clock w + real n * i))
    \<and> (\<forall>t. timeout = Some t \<and> 0 \<le> t \<longrightarrow>
          (\<exists>b w'. wait c out timeout i w = Some (Inr b, w') \<and> clock w' - clock w < t + i)
          \<and> ((\<forall>k. real k * i < t + i
                     \<longrightarrow> running_at out c i (log_debug ''Wait for other lock to end'' w) k)
               \<longrightarrow> (\<exists>w'. wait c out timeout i w = Some (Inr False, w'))))"
proof (intro conjI allI impI)
  let ?w0 = "log_debug ''Wait for other lock to end'' w"
  have c0: "clock ?w0 = clock w" by (simp add: log_debug_def)
  have i0: "0 \<le> i" using assms by simp
  {
    fix n
    assume a: "(\<forall>k<n. running_at out c i ?w0 k \<and> \<not> timed_out timeout (real k * i))
               \<and> \<not> running_at out c i ?w0 n"
    have "wait_loop out c timeout i (clock w) ?w0
            = wait_loop out c timeout i (clock w) (poll_world out c i ?w0 n)"
      using a c0 by (intro wait_loop_steps [OF i0]) simp
    also have "\<dots> = Some (Inr True, snd (exists_running c (poll_world out c i ?w0 n)))"
      using a by (intro wait_loop_stop) (simp add: running_at_def)
    finally show "\<exists>w'. wait c out timeout i w = Some (Inr True, w')
                       \<and> clock w' = clock w + real n * i"
      by (simp add: wait_def exists_running_clock poll_world_clock c0)
  }
  fix t assume t: "timeout = Some t \<and> 0 \<le> t"
  define P where "P k \<longleftrightarrow> \<not> running_at out c i ?w0 k \<or> t \<le> real k * i" for k
  obtain m :: nat where "t / i < real m" using reals_Archimedean2 by blast
  then have "t < real m * i" using assms by (simp add: pos_divide_less_eq)
  then have "P m" by (simp add: P_def)
  define N where "N = (LEAST k. P k)"
  have PN: "P N" unfolding N_def using \<open>P m\<close> by (rule LeastI)
  have below: "\<not> P k" if "k < N" for k using that not_less_Least N_def by blast
  have steps: "wait_loop out c timeout i (clock w) ?w0
            = wait_loop out c timeout i (clock w) (poll_world out c i ?w0 N)"
    using below t c0 by (intro wait_loop_steps [OF i0]) (auto simp: P_def timed_out_def)
  have bound: "real N * i < t + i"
  proof (cases N)
    case 0
    then show ?thesis using t assms by simp
  next
    case (Suc j)
    then have "\<not> P j" using below by simp
    then have "real j * i < t" by (simp add: P_def)
    then show ?thesis using Suc by (simp add: algebra_simps)
  qed
  have final: "wait c out timeout i w
        = Some (Inr (\<not> running_at out c i ?w0 N),
                snd (exists_running c (poll_world out c i ?w0 N)))"
  proof (cases "running_at out c i ?w0 N")
    case True
    then have "t \<le> real N * i" using PN by (simp add: P_def)
    then have "timed_out timeout (clock (poll_world out c i ?w0 N) - clock w)"
      using t by (simp add: timed_out_def poll_world_clock c0)
    then show ?thesis using True steps
      by (simp add: wait_def wait_loop_timeout running_at_def)
  next
    case False
    then show ?thesis using steps by (simp add: wait_def wait_loop_stop running_at_def)
  qed
  show "\<exists>b w'. wait c out timeout i w = Some (Inr b, w') \<and> clock w' - clock w < t + i"
    using final bound by (simp add: exists_running_clock poll_world_clock c0)
  {
    assume all: "\<forall>k. real k * i < t + i \<longrightarrow> running_at out c i ?w0 k"
    then have "running_at out c i ?w0 N" using bound by simp
    then show "\<exists>w'. wait c out timeout i w = Some (Inr False, w')" using final by simp
  }
qed


lemmas probe_eval = running_at_def next_poll_def others_act_def exists_running_def probe_def
  probe_body_def open_rw_def os_close_def fresh_fd_def is_locked_def new_LockClient_def
  busy_world_def posix_world_def log_debug_def leaves_at_def stays_def

text \<open>
  Witness, with polls one second apart. Another instance that leaves after two seconds
  makes \<^verbatim>\<open>wait(timeout=5)\<close> return true at the third poll, two seconds after the
  start; an instance that stays makes \<^verbatim>\<open>wait(timeout=2)\<close> return false, less than
  three seconds after the start.
\<close>

theorem wait_semantics_witness:
  "(0::real) < 1 \<and>
   (\<exists>w'. wait new_LockClient (leaves_at 2) (Some 5) 1 busy_world
            = Some (Inr True, w') \<and> clock w' = 2) \<and>
   (\<exists>b w'. wait new_LockClient stays (Some 2) 1 busy_world
            = Some (Inr b, w') \<and> clock w' < 3) \<and>
   (\<exists>w'. wait new_LockClient stays (Some 2) 1 busy_world
            = Some (Inr False, w'))"
proof -
  let ?wq = busy_world
  let ?wl = "log_debug ''Wait for other lock to end'' ?wq"
  have pos: "(0::real) < 1" by simp
  have cw: "clock ?wq = 0" by (simp add: busy_world_def posix_world_def)
  note A = wait_semantics [OF pos, of "leaves_at 2" new_LockClient ?wq "Some 5"]
  note B = wait_semantics [OF pos, of stays new_LockClient ?wq "Some 2"]
  have r0: "running_at (leaves_at 2) new_LockClient 1 ?wl 0" by (simp add: probe_eval)
  have r1: "running_at (leaves_at 2) new_LockClient 1 ?wl (Suc 0)" by (simp add: probe_eval)
  have r2: "\<not> running_at (leaves_at 2) new_LockClient 1 ?wl (Suc (Suc 0))"
    by (simp add: probe_eval)
  have a: "(\<forall>k<Suc (Suc 0). running_at (leaves_at 2) new_LockClient 1 ?wl k
               \<and> \<not> timed_out (Some 5) (real k * 1))
           \<and> \<not> running_at (leaves_at 2) new_LockClient 1 ?wl (Suc (Suc 0))"
    using r0 r1 r2 by (simp add: All_less_Suc timed_out_def)
  note A1 = A [THEN conjunct1, THEN spec, of "Suc (Suc 0)"]
  have first: "\<exists>w'. wait new_LockClient (leaves_at 2) (Some 5) 1 ?wq = Some (Inr True, w')
                  \<and> clock w' = 2"
    using A1 a cw by simp
  have s0: "running_at stays new_LockClient 1 ?wl 0" by (simp add: probe_eval)
  have s1: "running_at stays new_LockClient 1 ?wl (Suc 0)" by (simp add: probe_eval)
  have s2: "running_at stays new_LockClient 1 ?wl (Suc (Suc 0))" by (simp add: probe_eval)
  have run: "running_at stays new_LockClient 1 ?wl k" if "k < 3" for k
  proof -
    from that consider "k = 0" | "k = Suc 0" | "k = Suc (Suc 0)" by linarith
    then show ?thesis using s0 s1 s2 by cases simp_all
  qed
  have b: "\<forall>k. real k * 1 < 2 + 1 \<longrightarrow> running_at stays new_LockClient 1 ?wl k"
    using run by auto
  note B1 = B [THEN conjunct2, THEN spec, of 2]
  have second: "(\<exists>b w'. wait new_LockClient stays (Some 2) 1 ?wq = Some (Inr b, w')
                     \<and> clock w' < 3)
              \<and> (\<exists>w'. wait new_LockClient stays (Some 2) 1 ?wq = Some (Inr False, w'))"
    using B1 b cw by simp
  show ?thesis using pos first second by blast
qed


section \<open>Properties of SocketClient\<close>

lemmas path_eval = truediv_def posixpath_join_def path_str_def splitroot_def path_parts_def

subsection \<open>Joining a plain directory and a plain name\<close>

lemma split_sep_nonempty: "split_sep c xs \<noteq> []"
  by (induction xs) (auto split: list.splits)

lemma split_sep_no_sep: "p \<in> set (split_sep c xs) \<Longrightarrow> c \<notin> set p"
proof (induction xs arbitrary: p)
  case Nil
  then show ?case by simp
next
  case (Cons x xs)
  show ?case
  proof (cases "x = c")
    case True
    then show ?thesis using Cons by auto
  next
    case False
    obtain q qs where q: "split_sep c xs = q # qs"
      using split_sep_nonempty [of c xs] by (cases "split_sep c xs") auto
    then have "p = x # q \<or> p \<in> set qs" using Cons.prems False by simp
    then show ?thesis using Cons.IH q False by auto
  qed
qed

lemma split_sep_plain: "c \<notin> set ys \<Longrightarrow> split_sep c ys = [ys]"
  by (induction ys) auto

lemma split_sep_append: "c \<notin> set ys \<Longrightarrow> split_sep c (xs @ c # ys) = split_sep c xs @ [ys]"
proof (induction xs)
  case Nil
  then show ?case by (simp add: split_sep_plain)
next
  case (Cons x xs)
  obtain q qs where q: "split_sep c xs = q # qs"
    using split_sep_nonempty [of c xs] by (cases "split_sep c xs") auto
  show ?case using Cons q by simp
qed

lemma join_sep_snoc: "ps \<noteq> [] \<Longrightarrow> join_sep (ps @ [x]) = join_sep ps @ ''/'' @ x"
  by (induction ps rule: join_sep.induct) auto

lemma last_join_sep:
  "ps \<noteq> [] \<Longrightarrow> last ps \<noteq> [] \<Longrightarrow> join_sep ps \<noteq> [] \<and> last (join_sep ps) = last (last ps)"
  by (induction ps rule: join_sep.induct) auto

lemma truediv_plain:
  assumes "plain_dir b" and "plain_name nm"
  shows "truediv b (''.'' @ nm) = b @ ''/.'' @ nm"
proof -
  have norm: "path_str b = b"
    and abs: "take 1 b = ''/''" "take 1 (drop 1 b) \<noteq> ''/''" "b \<noteq> ''/''"
    using assms(1) by (simp_all add: plain_dir_def)
  have nm: "nm \<noteq> []" "CHR ''/'' \<notin> set nm"
    using assms(2) by (simp_all add: plain_name_def)
  let ?ps = "path_parts (drop 1 b)"
  have sr: "splitroot b = (''/'', drop 1 b)" using abs by (simp add: splitroot_def)
  then have b: "b = ''/'' @ join_sep ?ps" using norm by (simp add: path_str_def)
  have ps: "?ps \<noteq> []" using b abs(3) by (cases ?ps) auto
  have "last ?ps \<in> set ?ps" using ps by simp
  then have lp: "last ?ps \<noteq> [] \<and> CHR ''/'' \<notin> set (last ?ps)"
    using split_sep_no_sep [of "last ?ps" "CHR ''/''" "drop 1 b"] by (auto simp: path_parts_def)
  have lj: "join_sep ?ps \<noteq> [] \<and> last (join_sep ?ps) = last (last ?ps)"
    using last_join_sep ps lp by blast
  have "last b = last (join_sep ?ps)" using b lj by (metis last_appendR)
  then have lb: "last b \<noteq> CHR ''/''" using lj lp by (metis last_in_set)
  have bne: "b \<noteq> []" using abs(1) by auto
  have pj: "posixpath_join b (''.'' @ nm) = b @ ''/'' @ ''.'' @ nm"
    using lb bne by (simp add: posixpath_join_def)
  have len: "2 \<le> length b" using b lj by (cases "join_sep ?ps") (auto simp: Suc_le_eq)
  have sr2: "splitroot (b @ ''/'' @ ''.'' @ nm) = (''/'', drop 1 b @ ''/'' @ ''.'' @ nm)"
    using abs bne len by (cases b; cases "tl b") (auto simp: splitroot_def)
  have dot: "CHR ''/'' \<notin> set (''.'' @ nm)" using nm by simp
  have parts: "path_parts (drop 1 b @ ''/'' @ ''.'' @ nm) = ?ps @ [''.'' @ nm]"
    using split_sep_append [OF dot, of "drop 1 b"] nm by (simp add: path_parts_def)
  have "path_str (b @ ''/'' @ ''.'' @ nm) = ''/'' @ join_sep (?ps @ [''.'' @ nm])"
    using sr2 parts by (simp add: path_str_def)
  also have "\<dots> = ''/'' @ join_sep ?ps @ ''/'' @ ''.'' @ nm"
    using join_sep_snoc [OF ps] by simp
  also have "\<dots> = b @ ''/.'' @ nm" using b by (metis append.assoc append_Cons append_Nil)
  finally show ?thesis using pj by (simp add: truediv_def)
qed

text \<open>
  C5. On the socket-style platform, without an explicit override, the address resolved
  on first use is built from the first populated of \<^verbatim>\<open>XDG_RUNTIME_DIR\<close>, \<^verbatim>\<open>HOME\<close> and
  \<^verbatim>\<open>TMPDIR\<close>, in this order, joined (as pathlib joins paths) with \<open>.\<close> followed by the
  name; when none of the three is populated, resolving the address raises
  \<open>SocketPathError\<close>. In particular, when the runtime directory is not populated and
  \<^verbatim>\<open>HOME\<close> is a plain directory, the address of a client with a plain name is the string
  \<open>home/.name\<close>.
\<close>

theorem socket_path_posix:
  assumes "\<not> windows w" and "default_path c = None" and "socket_path_cache c = None"
  shows "fst (socket_path c w) =
     (case populated w ''XDG_RUNTIME_DIR'' of
        Some b \<Rightarrow> Inr (truediv b (''.'' @ name c))
      | None \<Rightarrow>
          (case populated w ''HOME'' of
             Some b \<Rightarrow> Inr (truediv b (''.'' @ name c))
           | None \<Rightarrow>
               (case populated w ''TMPDIR'' of
                  Some b \<Rightarrow> Inr (truediv b (''.'' @ name c))
                | None \<Rightarrow> Inl SocketPathError)))
     \<and> (\<forall>home. populated w ''XDG_RUNTIME_DIR'' = None \<and> populated w ''HOME'' = Some home
                 \<and> plain_dir home \<and> plain_name (name c)
            \<longrightarrow> fst (socket_path c w) = Inr (home @ ''/.'' @ name c))"
proof -
  have "fst (socket_path c w) = socket_path_body c w"
    using assms(3) by (cases "socket_path_body c w") (simp_all add: socket_path_def)
  then have chain: "fst (socket_path c w) =
     (case populated w ''XDG_RUNTIME_DIR'' of
        Some b \<Rightarrow> Inr (truediv b (''.'' @ name c))
      | None \<Rightarrow>
          (case populated w ''HOME'' of
             Some b \<Rightarrow> Inr (truediv b (''.'' @ name c))
           | None \<Rightarrow>
               (case populated w ''TMPDIR'' of
                  Some b \<Rightarrow> Inr (truediv b (''.'' @ name c))
                | None \<Rightarrow> Inl SocketPathError)))"
    using assms(1,2)
    by (simp add: socket_path_body_def populated_def split: option.splits)
  have "fst (socket_path c w) = Inr (home @ ''/.'' @ name c)"
    if "populated w ''XDG_RUNTIME_DIR'' = None" "populated w ''HOME'' = Some home"
       "plain_dir home" "plain_name (name c)" for home
    using chain that truediv_plain [of home "name c"] by simp
  then show ?thesis using chain by blast
qed

text \<open>
  Witness: with only \<^verbatim>\<open>HOME=/home/u\<close> set, the client named \<open>app\<close> resolves
  \<^verbatim>\<open>/home/u/.app\<close>; with no variable set, resolving raises.
\<close>

theorem socket_path_posix_witness:
  "\<not> windows home_world \<and> default_path app_client = None \<and> socket_path_cache app_client = None \<and>
   populated home_world ''XDG_RUNTIME_DIR'' = None \<and>
   populated home_world ''HOME'' = Some ''/home/u'' \<and>
   plain_dir ''/home/u'' \<and> plain_name (name app_client) \<and>
   fst (socket_path app_client home_world) = Inr (''/home/u'' @ ''/.'' @ name app_client) \<and>
   fst (socket_path app_client posix_world) = Inl SocketPathError"
proof -
  have hyp: "\<not> windows home_world" "default_path app_client = None"
    "socket_path_cache app_client = None" "\<not> windows posix_world"
    by (simp_all add: home_world_def posix_world_def app_client_def)
  have pop: "populated home_world ''XDG_RUNTIME_DIR'' = None"
    "populated home_world ''HOME'' = Some ''/home/u''"
    "populated posix_world ''XDG_RUNTIME_DIR'' = None"
    "populated posix_world ''HOME'' = None"
    "populated posix_world ''TMPDIR'' = None"
    by (simp_all add: home_world_def posix_world_def populated_def)
  have plain: "plain_dir ''/home/u''" "plain_name (name app_client)"
    by (simp_all add: plain_dir_def plain_name_def app_client_def path_str_def splitroot_def
          path_parts_def)
  have one: "fst (socket_path app_client home_world) = Inr (''/home/u'' @ ''/.'' @ name app_client)"
    using socket_path_posix [OF hyp(1,2,3)] pop plain by blast
  have two: "fst (socket_path app_client posix_world) = Inl SocketPathError"
    using socket_path_posix [OF hyp(4) hyp(2) hyp(3)] pop by simp
  show ?thesis using hyp pop plain one two by blast
qed

lemma socket_path_pipe: "socket_path c w = (r, c1) \<Longrightarrow> priv_pipe c1 = priv_pipe c"
  by (auto simp: socket_path_def split: option.splits sum.splits)

text \<open>
  C6, as the code has it. \<^verbatim>\<open>connect\<close> on a connected client is a no-op. On a
  disconnected client whose address resolves, a failure to open the transport with
  FileNotFoundError (endpoint missing) or ConnectionRefusedError is logged, raises
  nothing and leaves the client disconnected; any other OS error, permission denied
  among them, is raised to the caller, and the client stays disconnected.
\<close>

theorem connect_outcome:
  "(is_connect (h self) \<longrightarrow> connect self (h, w) = (Inr (ConnectSocket self), h, w)) \<and>
   (\<forall>p c1 e w1.
      \<not> is_connect (h self) \<and> socket_path (h self) w = (Inr p, c1) \<and>
      (if windows w then open_pipe p (log_debug ''Attempting to connecting socket'' w)
       else sock_connect p (log_debug ''Attempting to connecting socket'' w)) = (Inl e, w1)
      \<longrightarrow> (\<exists>h' w'.
             (if FileNotFoundError e \<or> ConnectionRefusedError e
              then connect self (h, w) = (Inr (ConnectSocket self), h', w')
                   \<and> (ERROR, ''Socket connection failed'') \<in> set (logged w')
              else connect self (h, w) = (Inl (OSError e), h', w'))
             \<and> \<not> is_connect (h' self)))"
proof (intro conjI allI impI)
  assume "is_connect (h self)"
  then show "connect self (h, w) = (Inr (ConnectSocket self), h, w)"
    by (simp add: connect_def)
next
  fix p c1 e w1
  assume a: "\<not> is_connect (h self) \<and> socket_path (h self) w = (Inr p, c1) \<and>
      (if windows w then open_pipe p (log_debug ''Attempting to connecting socket'' w)
       else sock_connect p (log_debug ''Attempting to connecting socket'' w)) = (Inl e, w1)"
  then have pp: "priv_pipe c1 = None"
    using socket_path_pipe [of "h self" w "Inr p" c1] by (simp add: is_connect_def)
  show "\<exists>h' w'.
             (if FileNotFoundError e \<or> ConnectionRefusedError e
              then connect self (h, w) = (Inr (ConnectSocket self), h', w')
                   \<and> (ERROR, ''Socket connection failed'') \<in> set (logged w')
              else connect self (h, w) = (Inl (OSError e), h', w'))
             \<and> \<not> is_connect (h' self)"
  proof (cases "FileNotFoundError e \<or> ConnectionRefusedError e")
    case True
    then have "connect self (h, w)
        = (Inr (ConnectSocket self), h(self := c1\<lparr>priv_pipe := None\<rparr>),
           log_exception ''Socket connection failed'' w1)"
      using a by (simp add: connect_def)
    then show ?thesis using True by (simp add: is_connect_def log_exception_def)
  next
    case False
    then have "connect self (h, w) = (Inl (OSError e), h(self := c1), w1)"
      using a by (simp add: connect_def)
    then show ?thesis using False pp by (simp add: is_connect_def)
  qed
qed

text \<open>
  Witness: a connected client is returned as it is; a missing endpoint is absorbed and
  logged; a refused permission is raised.
\<close>

theorem connect_outcome_witness:
  "is_connect connected_client \<and>
   connect 0 (\<lambda>r. connected_client, home_world)
     = (Inr (ConnectSocket 0), \<lambda>r. connected_client, home_world) \<and>
   \<not> is_connect app_client \<and>
   (\<exists>h' w'. connect 0 (\<lambda>r. app_client, home_world) = (Inr (ConnectSocket 0), h', w')
       \<and> (ERROR, ''Socket connection failed'') \<in> set (logged w') \<and> \<not> is_connect (h' 0)) \<and>
   (\<exists>h' w'. connect 0 (\<lambda>r. app_client, home_world\<lparr>endpoints := (\<lambda>p. Denied)\<rparr>)
               = (Inl (OSError EACCES), h', w') \<and> \<not> is_connect (h' 0))"
  using connect_outcome [of "\<lambda>r. connected_client" 0 home_world]
        connect_outcome [of "\<lambda>r. app_client" 0 home_world]
        connect_outcome [of "\<lambda>r. app_client" 0 "home_world\<lparr>endpoints := (\<lambda>p. Denied)\<rparr>"]
  by (simp add: is_connect_def connected_client_def app_client_def home_world_def posix_world_def
        socket_path_def socket_path_body_def sock_connect_def log_debug_def path_eval
        FileNotFoundError_def ConnectionRefusedError_def)

text \<open>
  The sentence of the specification fails for a refused permission: the client is left
  disconnected, but the PermissionError reaches the caller.
\<close>

theorem connect_permission_denied_counterexample:
  "\<not> is_connect app_client \<and>
   fst (sock_connect ''/home/u/.app'' (home_world\<lparr>endpoints := (\<lambda>p. Denied)\<rparr>)) = Inl EACCES \<and>
   PermissionError EACCES \<and>
   fst (connect 0 (\<lambda>r. app_client, home_world\<lparr>endpoints := (\<lambda>p. Denied)\<rparr>)) = Inl (OSError EACCES)"
  by (simp add: connect_def socket_path_def socket_path_body_def sock_connect_def is_connect_def
        app_client_def home_world_def posix_world_def log_debug_def PermissionError_def
        FileNotFoundError_def ConnectionRefusedError_def path_eval)

text \<open>
  C8, as the code has it. \<^verbatim>\<open>disconnect\<close> on a client that is not connected is a no-op.
  On a connected client whose address is resolved (as it is after any \<^verbatim>\<open>connect\<close>), it
  closes the transport and raises nothing; when the close succeeds the client is marked
  disconnected, and when the close raises, the error is logged and the client is still
  marked connected.
\<close>

theorem disconnect_outcome:
  "(\<not> is_connect (h self) \<longrightarrow> disconnect self (h, w) = (Inr (), h, w)) \<and>
   (\<forall>pipe p c1.
      priv_pipe (h self) = Some pipe \<and> socket_path (h self) w = (Inr p, c1)
      \<longrightarrow> (\<exists>h' w'. disconnect self (h, w) = (Inr (), h', w') \<and>
             (case fst (pipe_close pipe (log_debug ''Disconnecting socket'' w)) of
                Inl e \<Rightarrow> is_connect (h' self) \<and> (ERROR, ''Socket close failed'') \<in> set (logged w')
              | Inr u \<Rightarrow> \<not> is_connect (h' self) \<and> handles w' = remove1 pipe (handles w))))"
proof (intro conjI allI impI)
  assume "\<not> is_connect (h self)"
  then show "disconnect self (h, w) = (Inr (), h, w)"
    by (simp add: disconnect_def is_connect_def)
next
  fix pipe p c1
  assume a: "priv_pipe (h self) = Some pipe \<and> socket_path (h self) w = (Inr p, c1)"
  then have pp: "priv_pipe c1 = Some pipe"
    using socket_path_pipe [of "h self" w "Inr p" c1] by simp
  show "\<exists>h' w'. disconnect self (h, w) = (Inr (), h', w') \<and>
             (case fst (pipe_close pipe (log_debug ''Disconnecting socket'' w)) of
                Inl e \<Rightarrow> is_connect (h' self) \<and> (ERROR, ''Socket close failed'') \<in> set (logged w')
              | Inr u \<Rightarrow> \<not> is_connect (h' self) \<and> handles w' = remove1 pipe (handles w))"
    using a pp
    by (auto simp: disconnect_def is_connect_def pipe_close_def log_exception_def log_debug_def)
qed

text \<open>
  Witness: a client that is not connected is untouched; a connected client whose handle
  is open is disconnected and the handle is closed.
\<close>

theorem disconnect_outcome_witness:
  "\<not> is_connect app_client \<and>
   disconnect 0 (\<lambda>r. app_client, home_world) = (Inr (), \<lambda>r. app_client, home_world) \<and>
   priv_pipe connected_client = Some 3 \<and>
   (\<exists>h' w'. disconnect 0 (\<lambda>r. connected_client, home_world\<lparr>handles := [3]\<rparr>) = (Inr (), h', w')
       \<and> \<not> is_connect (h' 0) \<and> handles w' = [])"
  using disconnect_outcome [of "\<lambda>r. app_client" 0 home_world]
        disconnect_outcome [of "\<lambda>r. connected_client" 0 "home_world\<lparr>handles := [3]\<rparr>"]
  by (simp add: is_connect_def connected_client_def app_client_def home_world_def posix_world_def
        socket_path_def pipe_close_def log_debug_def)

text \<open>
  The sentence of the specification fails when the close raises: the error is logged,
  nothing is raised, and the client still reports \<open>is_connect\<close> true.
\<close>

theorem disconnect_close_error_counterexample:
  "is_connect connected_client \<and>
   fst (pipe_close 3 (log_debug ''Disconnecting socket'' home_world)) = Inl EBADF \<and>
   fst (disconnect 0 (\<lambda>r. connected_client, home_world)) = Inr () \<and>
   is_connect (fst (snd (disconnect 0 (\<lambda>r. connected_client, home_world))) 0)"
  by (simp add: disconnect_def socket_path_def pipe_close_def is_connect_def connected_client_def
        home_world_def posix_world_def log_debug_def log_exception_def)

end
